theory Spec2Isabelle
  imports Complex_Main "HOL-Library.Word"
begin

section \<open>RTMP stream viewer: capture worker and handshake handler\<close>

text \<open>
  The development embeds the two parts of \<^verbatim>\<open>rtmp_stream_viewer.py\<close> that compute:
  the body of \<^verbatim>\<open>VideoThread.run\<close> (moving-average FPS, bitrate accumulator, events)
  and the coroutine \<^verbatim>\<open>handle_client\<close> (the fixed-size handshake).

  Python floats are idealised as reals; the concrete inputs used below are dyadic
  rationals and small integers, on which float arithmetic agrees with the reals.
  What the code obtains from outside (clock readings, frames, the values of
  \<^verbatim>\<open>_run_flag\<close> seen at the loop heads, the results of \<^verbatim>\<open>reader.read\<close>, the bytes of
  \<^verbatim>\<open>os.urandom\<close>) is an input of the model.
\<close>

subsection \<open>Errors and events\<close>

datatype error = ZeroDivisionError | ValueError | OverflowError

text \<open>
  One constructor per Qt signal of \<^verbatim>\<open>VideoThread\<close>. \<open>Resolution\<close> carries the two
  integers that the source formats as \<^verbatim>\<open>f"{width}x{height}"\<close>; \<open>Pixmap\<close> stands for
  \<^verbatim>\<open>change_pixmap_signal\<close> and carries the frame's \<^verbatim>\<open>nbytes\<close>.
\<close>

datatype event =
    Status bool
  | Fps real
  | Bitrate real string
  | Resolution int int
  | Pixmap nat

subsection \<open>The bounded deque\<close>

text \<open>
  \<^verbatim>\<open>deque(maxlen=n).append(x)\<close>: the element is added on the right and, when the
  deque then holds more than \<open>n\<close> elements, one element is removed on the left.
\<close>

definition deque_append :: "nat \<Rightarrow> 'a list \<Rightarrow> 'a \<Rightarrow> 'a list" where
  "deque_append n xs x = (let ys = xs @ [x] in if n < length ys then tl ys else ys)"

subsection \<open>The worker's state\<close>

text \<open>
  \<open>maxlen\<close> and \<open>fps_history\<close> are the deque created in \<^verbatim>\<open>__init__\<close>; the other three
  fields are the locals of \<^verbatim>\<open>run\<close> that live across iterations of the inner loop.
\<close>

record worker =
  maxlen :: nat
  fps_history :: "real list"
  prev_time :: real
  frame_count :: nat
  total_size :: nat

text \<open>
  \<^verbatim>\<open>__init__\<close>: \<^verbatim>\<open>deque(maxlen=...)\<close> converts its argument to a signed machine
  integer (64 bits here) and raises \<^verbatim>\<open>OverflowError\<close> when it does not fit; it raises
  \<^verbatim>\<open>ValueError\<close> on a negative length.
\<close>

definition init :: "int \<Rightarrow> error + worker" where
  "init fps_history_length =
     (if fps_history_length < - (2 ^ 63) \<or> 2 ^ 63 \<le> fps_history_length then Inl OverflowError
      else if fps_history_length < 0 then Inl ValueError
      else Inr \<lparr>maxlen = nat fps_history_length, fps_history = [],
                prev_time = 0, frame_count = 0, total_size = 0\<rparr>)"

subsection \<open>One frame\<close>

text \<open>Lines 91 to 96: the value and unit handed to \<^verbatim>\<open>bitrate_signal\<close>.\<close>

definition bitrate_event :: "nat \<Rightarrow> event" where
  "bitrate_event total_bytes =
     (let bitrate = (real total_bytes * 8) / 1000
      in if bitrate > 2000 then Bitrate (bitrate / 1000) ''Mbps''
         else Bitrate bitrate ''kbps'')"

text \<open>
  The body of \<^verbatim>\<open>if ret:\<close> (lines 77 to 100) for a frame of \<open>frame_size\<close> bytes read when
  the clock shows \<open>current_time\<close>. Both divisions raise \<^verbatim>\<open>ZeroDivisionError\<close> on a zero
  divisor; either happens before the first signal of the iteration is emitted.
\<close>

definition frame_step :: "worker \<Rightarrow> real \<Rightarrow> nat \<Rightarrow> error + (event list \<times> worker)" where
  "frame_step w current_time frame_size =
     (if current_time - prev_time w = 0 then Inl ZeroDivisionError
      else
        let fps = 1 / (current_time - prev_time w);
            h = deque_append (maxlen w) (fps_history w) fps
        in if length h = 0 then Inl ZeroDivisionError
           else
             let avg_fps = sum_list h / real (length h);
                 total_bytes = total_size w + frame_size;
                 frames_seen = frame_count w + 1;
                 w1 = w\<lparr>fps_history := h, prev_time := current_time\<rparr>
             in if real frames_seen \<ge> avg_fps
                then Inr ([Fps avg_fps, bitrate_event total_bytes, Pixmap frame_size],
                          w1\<lparr>frame_count := 0, total_size := 0\<rparr>)
                else Inr ([Fps avg_fps, Pixmap frame_size],
                          w1\<lparr>frame_count := frames_seen, total_size := total_bytes\<rparr>))"

subsection \<open>The inner loop, a session, the outer loop\<close>

text \<open>
  The inner loop runs over the frames that \<^verbatim>\<open>cap.read()\<close> delivers, each with the
  clock reading taken right after it. It ends when \<^verbatim>\<open>_run_flag\<close> is seen false at the
  loop head or when \<^verbatim>\<open>cap.read()\<close> reports failure; an exception ends the thread.
  The result is the list of signals emitted and the error or the final state.
\<close>

fun read_loop :: "worker \<Rightarrow> (real \<times> nat) list \<Rightarrow> event list \<times> (error + worker)" where
  "read_loop w [] = ([], Inr w)"
| "read_loop w ((t, sz) # fs) =
     (case frame_step w t sz of
        Inl e \<Rightarrow> ([], Inl e)
      | Inr (evs, w') \<Rightarrow> (case read_loop w' fs of (evs', r) \<Rightarrow> (evs @ evs', r)))"

datatype ending = StopRequested | ReadFailed

record capture =
  cap_width :: int
  cap_height :: int
  opened_at :: real
  frames :: "(real \<times> nat) list"
  ending :: ending

text \<open>Lines 65 to 67: the locals set after a successful open.\<close>

definition open_session :: "worker \<Rightarrow> real \<Rightarrow> worker" where
  "open_session w t = w\<lparr>prev_time := t, frame_count := 0, total_size := 0\<rparr>"

text \<open>
  Lines 63 to 104, the branch \<^verbatim>\<open>cap.isOpened()\<close>. The closing \<^verbatim>\<open>Status False\<close> is
  emitted when the inner loop is left normally, not when an exception unwinds.
\<close>

definition session :: "worker \<Rightarrow> capture \<Rightarrow> event list \<times> (error + worker)" where
  "session w c =
     (case read_loop (open_session w (opened_at c)) (frames c) of
        (evs, Inl e) \<Rightarrow> ([Status True, Resolution (cap_width c) (cap_height c)] @ evs, Inl e)
      | (evs, Inr w') \<Rightarrow>
          ([Status True, Resolution (cap_width c) (cap_height c)] @ evs @ [Status False], Inr w'))"

datatype attempt = NotOpened | Opened capture

text \<open>
  The outer loop over the successive \<^verbatim>\<open>cv2.VideoCapture\<close> attempts. The flag is only
  ever set to false, so a session that ended on the flag ends the run; the end of
  the list is the flag seen false at the outer loop head.
\<close>

fun run :: "worker \<Rightarrow> attempt list \<Rightarrow> event list \<times> (error + worker)" where
  "run w [] = ([], Inr w)"
| "run w (NotOpened # as) = (case run w as of (evs, r) \<Rightarrow> (Status False # evs, r))"
| "run w (Opened c # as) =
     (case session w c of
        (evs, Inl e) \<Rightarrow> (evs, Inl e)
      | (evs, Inr w') \<Rightarrow>
          (if ending c = StopRequested then (evs, Inr w')
           else case run w' as of (evs', r) \<Rightarrow> (evs @ evs', r)))"

text \<open>The FPS values among the emitted signals, in order.\<close>

fun fps_values :: "event list \<Rightarrow> real list" where
  "fps_values [] = []"
| "fps_values (Fps v # evs) = v # fps_values evs"
| "fps_values (_ # evs) = fps_values evs"

text \<open>The inter-frame intervals of a list of clock readings, from a starting reading.\<close>

fun intervals :: "real \<Rightarrow> (real \<times> nat) list \<Rightarrow> real list" where
  "intervals p [] = []"
| "intervals p ((t, sz) # fs) = (t - p) # intervals t fs"

text \<open>The resolutions among the emitted signals, in order.\<close>

fun resolutions :: "event list \<Rightarrow> (int \<times> int) list" where
  "resolutions [] = []"
| "resolutions (Resolution x y # evs) = (x, y) # resolutions evs"
| "resolutions (_ # evs) = resolutions evs"

text \<open>
  For stating what the window holds after a whole run: the last \<open>n\<close> elements of a
  list, the rates that the frames of one session contribute (the first interval
  counted from the time of the open), the rates that a run admits over all its
  sessions (a session that ended on the flag ends the run), and the runs in which
  every session ended on a failed read.
\<close>

definition last_n :: "nat \<Rightarrow> 'a list \<Rightarrow> 'a list" where
  "last_n n xs = drop (length xs - n) xs"

definition session_rates :: "capture \<Rightarrow> real list" where
  "session_rates c = map (\<lambda>d. 1 / d) (intervals (opened_at c) (frames c))"

fun rates_admitted :: "attempt list \<Rightarrow> real list" where
  "rates_admitted [] = []"
| "rates_admitted (NotOpened # as) = rates_admitted as"
| "rates_admitted (Opened c # as) =
     session_rates c @ (if ending c = StopRequested then [] else rates_admitted as)"

fun reconnects :: "attempt list \<Rightarrow> bool" where
  "reconnects [] = True"
| "reconnects (NotOpened # as) = reconnects as"
| "reconnects (Opened c # as) = (ending c = ReadFailed \<and> reconnects as)"

subsection \<open>The figures of the specification\<close>

text \<open>
  The two formulas as the specification words them, for comparison with what the
  code computes: the reciprocal of the arithmetic mean of the held intervals, and
  the accumulated bits divided by the elapsed duration of the window in milliseconds.
\<close>

definition spec_average_fps :: "real list \<Rightarrow> real" where
  "spec_average_fps ivs = 1 / (sum_list ivs / real (length ivs))"

definition spec_bitrate_kbps :: "nat \<Rightarrow> real \<Rightarrow> real" where
  "spec_bitrate_kbps accumulated_bytes elapsed_ms = (real accumulated_bytes * 8) / elapsed_ms"

subsection \<open>The handshake handler\<close>

type_synonym byte = "8 word"

text \<open>\<^verbatim>\<open>os.urandom(n)\<close> returns \<open>n\<close> bytes; their values come from the entropy source.\<close>

definition os_urandom :: "(nat \<Rightarrow> byte) \<Rightarrow> nat \<Rightarrow> byte list" where
  "os_urandom entropy n = map entropy [0..<n]"

text \<open>
  \<^verbatim>\<open>handle_client\<close> is a coroutine. What it obtains from outside is: the peer name
  (\<^verbatim>\<open>get_extra_info\<close> gives \<^verbatim>\<open>None\<close> when the socket has none, and \<^verbatim>\<open>addr[0]\<close> then
  raises \<^verbatim>\<open>TypeError\<close>); the outcome of each \<^verbatim>\<open>await reader.read(...)\<close> in order, which
  returns bytes (at most as many as asked for, none when the peer has closed) or
  raises; and the outcome of each of the two \<^verbatim>\<open>await writer.drain()\<close>, which returns
  or raises (the handler writes 3072 bytes at most, below the mark at which the
  transport makes a drain wait). \<open>OSError\<close> stands for the exception that the
  transport reports (\<^verbatim>\<open>ConnectionResetError\<close> and the like). Where the list of read
  outcomes ends, the coroutine is left suspended in that read.
\<close>

datatype exn = TypeError | OSError | CancelledError

datatype 'a awaited = Done 'a | Raise exn

record peer =
  peername :: "(string \<times> nat) option"
  reads :: "byte list awaited list"
  drain1 :: "exn option"
  drain2 :: "exn option"

text \<open>
  Where the coroutine is: suspended in the read of line 256, 262 or 269, returned
  (after the \<^verbatim>\<open>break\<close>), or ended by an exception.
\<close>

datatype point = ReadC1 | ReadC2 | ReadChunkHeader | Returned | Raised exn

record connection =
  point :: point
  written :: "byte list list"

text \<open>Lines 268 to 271, over the outcomes of the reads of one byte.\<close>

fun message_loop :: "byte list awaited list \<Rightarrow> point" where
  "message_loop [] = ReadChunkHeader"
| "message_loop (Raise e # rs) = Raised e"
| "message_loop (Done chunk_header # rs) =
     (if chunk_header = [] then Returned else message_loop rs)"

text \<open>
  Lines 251 to 271. \<open>written\<close> lists the arguments of the calls of \<^verbatim>\<open>writer.write\<close>
  in order. The handler has no call of \<^verbatim>\<open>writer.close\<close>.
\<close>

definition handle_client :: "(nat \<Rightarrow> byte) \<Rightarrow> peer \<Rightarrow> connection" where
  "handle_client entropy p =
     (case peername p of
        None \<Rightarrow> \<lparr>point = Raised TypeError, written = []\<rparr>
      | Some addr \<Rightarrow>
         (case reads p of
            [] \<Rightarrow> \<lparr>point = ReadC1, written = []\<rparr>
          | Raise e # rs \<Rightarrow> \<lparr>point = Raised e, written = []\<rparr>
          | Done c1 # rs \<Rightarrow>
             (let s1 = 3 # os_urandom entropy 1535 in
              case drain1 p of
                Some e \<Rightarrow> \<lparr>point = Raised e, written = [s1]\<rparr>
              | None \<Rightarrow>
                 (case rs of
                    [] \<Rightarrow> \<lparr>point = ReadC2, written = [s1]\<rparr>
                  | Raise e # rs' \<Rightarrow> \<lparr>point = Raised e, written = [s1]\<rparr>
                  | Done c2 # rs' \<Rightarrow>
                     (let s2 = c1 in
                      case drain2 p of
                        Some e \<Rightarrow> \<lparr>point = Raised e, written = [s1, s2]\<rparr>
                      | None \<Rightarrow> \<lparr>point = message_loop rs', written = [s1, s2]\<rparr>)))))"


section \<open>Properties\<close>

subsection \<open>Auxiliary facts\<close>

lemma deque_append_short: "length xs < n \<Longrightarrow> deque_append n xs x = xs @ [x]"
  by (simp add: deque_append_def)

lemma deque_append_full: "length xs = n \<Longrightarrow> 0 < n \<Longrightarrow> deque_append n xs x = tl xs @ [x]"
  by (cases xs) (simp_all add: deque_append_def)

lemma deque_append_nonempty: "0 < n \<Longrightarrow> deque_append n xs x \<noteq> []"
  by (cases xs) (simp_all add: deque_append_def Let_def)

lemma fps_values_bitrate [simp]: "fps_values (bitrate_event b # evs) = fps_values evs"
  by (simp add: bitrate_event_def Let_def)

lemma resolutions_bitrate [simp]: "resolutions (bitrate_event b # evs) = resolutions evs"
  by (simp add: bitrate_event_def Let_def)

text \<open>A frame step that returns has appended the new rate to a non-empty window.\<close>

lemma frame_step_Inr:
  assumes "frame_step w t sz = Inr (evs, w')"
  defines "h \<equiv> deque_append (maxlen w) (fps_history w) (1 / (t - prev_time w))"
  shows "t \<noteq> prev_time w" and "h \<noteq> []" and "fps_history w' = h"
    and "maxlen w' = maxlen w" and "prev_time w' = t"
    and "evs = [Fps (sum_list h / real (length h)), bitrate_event (total_size w + sz), Pixmap sz]
           \<and> frame_count w' = 0 \<and> total_size w' = 0
           \<and> sum_list h / real (length h) \<le> real (frame_count w + 1)
         \<or> evs = [Fps (sum_list h / real (length h)), Pixmap sz]
           \<and> frame_count w' = frame_count w + 1 \<and> total_size w' = total_size w + sz
           \<and> real (frame_count w + 1) < sum_list h / real (length h)"
  using assms(1) unfolding h_def
  by (auto simp add: frame_step_def Let_def split: if_splits)

text \<open>With distinct clock readings and a window of positive capacity the step returns.\<close>

lemma frame_step_ok:
  assumes "t \<noteq> prev_time w" and "0 < maxlen w"
  defines "h \<equiv> deque_append (maxlen w) (fps_history w) (1 / (t - prev_time w))"
  shows "\<exists>evs w'. frame_step w t sz = Inr (Fps (sum_list h / real (length h)) # evs, w')
           \<and> fps_values evs = [] \<and> resolutions evs = []
           \<and> fps_history w' = h \<and> maxlen w' = maxlen w \<and> prev_time w' = t"
proof -
  have ne: "length h \<noteq> 0"
    using assms(2) by (simp add: h_def deque_append_nonempty)
  show ?thesis
  proof (cases "sum_list h / real (length h) \<le> real (frame_count w + 1)")
    case True
    with assms(1) ne have "frame_step w t sz =
        Inr (Fps (sum_list h / real (length h)) # [bitrate_event (total_size w + sz), Pixmap sz],
             w\<lparr>fps_history := h, prev_time := t, frame_count := 0, total_size := 0\<rparr>)"
      by (simp add: frame_step_def Let_def h_def)
    then show ?thesis by simp
  next
    case False
    with assms(1) ne have "frame_step w t sz =
        Inr (Fps (sum_list h / real (length h)) # [Pixmap sz],
             w\<lparr>fps_history := h, prev_time := t, frame_count := frame_count w + 1,
               total_size := total_size w + sz\<rparr>)"
      by (simp add: frame_step_def Let_def h_def)
    then show ?thesis by simp
  qed
qed

lemma fps_values_append: "fps_values (xs @ ys) = fps_values xs @ fps_values ys"
  by (induction xs rule: fps_values.induct) simp_all

text \<open>
  While the window has room and no two consecutive clock readings coincide, the
  inner loop returns, the window grows by the rate of each frame, and the last
  FPS value emitted is the mean of the window.
\<close>

lemma read_loop_admits:
  assumes "length (fps_history w) + length fs \<le> maxlen w"
    and "0 \<notin> set (intervals (prev_time w) fs)"
  shows "\<exists>evs w'. read_loop w fs = (evs, Inr w')
           \<and> fps_history w' = fps_history w @ map (\<lambda>d. 1 / d) (intervals (prev_time w) fs)
           \<and> maxlen w' = maxlen w
           \<and> (fs \<noteq> [] \<longrightarrow> fps_values evs \<noteq> []
                \<and> last (fps_values evs) = sum_list (fps_history w') / real (length (fps_history w')))"
  using assms
proof (induction fs arbitrary: w)
  case Nil
  then show ?case by simp
next
  case (Cons f fs)
  obtain t sz where f: "f = (t, sz)" by (cases f)
  from Cons.prems f have t: "t \<noteq> prev_time w" and room: "length (fps_history w) < maxlen w"
    by auto
  define h where "h = fps_history w @ [1 / (t - prev_time w)]"
  from room have hh: "deque_append (maxlen w) (fps_history w) (1 / (t - prev_time w)) = h"
    by (simp add: h_def deque_append_short)
  from frame_step_ok[OF t, of sz] room hh
  obtain evs1 w1 where step: "frame_step w t sz = Inr (Fps (sum_list h / real (length h)) # evs1, w1)"
    and e1: "fps_values evs1 = []" and h1: "fps_history w1 = h"
    and m1: "maxlen w1 = maxlen w" and p1: "prev_time w1 = t"
    by auto
  from Cons.prems f h1 m1 p1 have
    "length (fps_history w1) + length fs \<le> maxlen w1" "0 \<notin> set (intervals (prev_time w1) fs)"
    by (simp_all add: h_def)
  from Cons.IH[OF this] obtain evs2 w2 where
    loop: "read_loop w1 fs = (evs2, Inr w2)"
    and h2: "fps_history w2 = fps_history w1 @ map (\<lambda>d. 1 / d) (intervals (prev_time w1) fs)"
    and m2: "maxlen w2 = maxlen w1"
    and l2: "fs \<noteq> [] \<longrightarrow> fps_values evs2 \<noteq> []
                \<and> last (fps_values evs2) = sum_list (fps_history w2) / real (length (fps_history w2))"
    by blast
  have run: "read_loop w (f # fs) = ((Fps (sum_list h / real (length h)) # evs1) @ evs2, Inr w2)"
    using step loop f by simp
  have hist: "fps_history w2 = fps_history w @ map (\<lambda>d. 1 / d) (intervals (prev_time w) (f # fs))"
    using h2 h1 p1 f by (simp add: h_def)
  have fv: "fps_values ((Fps (sum_list h / real (length h)) # evs1) @ evs2)
             = (sum_list h / real (length h)) # fps_values evs2"
    using e1 by (simp add: fps_values_append)
  have lastv: "last ((sum_list h / real (length h)) # fps_values evs2)
                 = sum_list (fps_history w2) / real (length (fps_history w2))"
  proof (cases "fs = []")
    case True
    with loop have "evs2 = []" "w2 = w1" by simp_all
    then show ?thesis using h1 by simp
  next
    case False
    with l2 show ?thesis by simp
  qed
  show ?case
    using run hist m2 m1 fv lastv by simp
qed

subsection \<open>The moving average of the frame rate\<close>

text \<open>
  Claim C1, as the specification states it: after admitting N intervals (N at most
  the history length) the average FPS emitted equals the reciprocal of the
  arithmetic mean of those intervals. The code stores the rate \<open>1 / interval\<close> of
  each frame in the deque and emits the arithmetic mean of the stored rates. With the
  session opened at time 0 and frames at times 1 and 3/2 (intervals 1 and 1/2) it
  emits (1 + 2) / 2 = 3/2, where the reciprocal of the mean interval is 4/3.
\<close>

theorem average_fps_counterexample:
  "last (fps_values (fst (read_loop
       \<lparr>maxlen = 120, fps_history = [], prev_time = 0, frame_count = 0, total_size = 0\<rparr>
       [(1, 1000), (3/2, 1000)]))) = 3/2
   \<and> spec_average_fps (intervals 0 [(1, 1000), (3/2, 1000)]) = 4/3
   \<and> last (fps_values (fst (read_loop
       \<lparr>maxlen = 120, fps_history = [], prev_time = 0, frame_count = 0, total_size = 0\<rparr>
       [(1, 1000), (3/2, 1000)])))
     \<noteq> spec_average_fps (intervals 0 [(1, 1000), (3/2, 1000)])"
  by (simp add: frame_step_def deque_append_def bitrate_event_def Let_def spec_average_fps_def)

text \<open>
  Claim C1, amended: starting from an empty window, after N frames (N at least 1 and
  at most the history length, no two consecutive clock readings equal) the inner
  loop has emitted, last, the arithmetic mean of the reciprocals of the N
  intervals; and a frame admitted when the window is full removes the oldest rate
  and appends the new one, the window keeping its length.
\<close>

theorem average_fps_is_mean_of_rates:
  "(fps_history w = [] \<and> fs \<noteq> [] \<and> length fs \<le> maxlen w
      \<and> 0 \<notin> set (intervals (prev_time w) fs)
    \<longrightarrow> (\<exists>evs w'. read_loop w fs = (evs, Inr w') \<and> fps_values evs \<noteq> []
           \<and> last (fps_values evs)
               = sum_list (map (\<lambda>d. 1 / d) (intervals (prev_time w) fs)) / real (length fs)))
   \<and> (length (fps_history v) = maxlen v \<and> frame_step v t sz = Inr (evs1, v1)
    \<longrightarrow> fps_history v1 = tl (fps_history v) @ [1 / (t - prev_time v)]
        \<and> length (fps_history v1) = maxlen v)"
proof (intro conjI impI)
  assume a: "fps_history w = [] \<and> fs \<noteq> [] \<and> length fs \<le> maxlen w
      \<and> 0 \<notin> set (intervals (prev_time w) fs)"
  have len: "length (intervals p fs) = length fs" for p
    by (induction p fs rule: intervals.induct) simp_all
  from a read_loop_admits[of w fs] obtain evs w' where
    "read_loop w fs = (evs, Inr w')" "fps_values evs \<noteq> []"
    "fps_history w' = map (\<lambda>d. 1 / d) (intervals (prev_time w) fs)"
    "last (fps_values evs) = sum_list (fps_history w') / real (length (fps_history w'))"
    by auto
  then show "\<exists>evs w'. read_loop w fs = (evs, Inr w') \<and> fps_values evs \<noteq> []
           \<and> last (fps_values evs)
               = sum_list (map (\<lambda>d. 1 / d) (intervals (prev_time w) fs)) / real (length fs)"
    by (simp add: len)
next
  assume b: "length (fps_history v) = maxlen v \<and> frame_step v t sz = Inr (evs1, v1)"
  then have s: "frame_step v t sz = Inr (evs1, v1)" by simp
  have pos: "0 < maxlen v"
  proof (rule ccontr)
    assume "\<not> 0 < maxlen v"
    with b have "deque_append (maxlen v) (fps_history v) (1 / (t - prev_time v)) = []"
      by (simp add: deque_append_def)
    with frame_step_Inr(2)[OF s] show False by simp
  qed
  with b frame_step_Inr(3)[OF s]
  show "fps_history v1 = tl (fps_history v) @ [1 / (t - prev_time v)]"
    by (simp add: deque_append_full)
  with b pos show "length (fps_history v1) = maxlen v" by simp
qed

theorem average_fps_is_mean_of_rates_witness:
  "(\<exists>evs w'. read_loop \<lparr>maxlen = 2, fps_history = [], prev_time = 0, frame_count = 0, total_size = 0\<rparr>
        [(1, 1000), (3/2, 1000)] = (evs, Inr w') \<and> last (fps_values evs) = (1 / 1 + 1 / (1/2)) / 2)
   \<and> frame_step \<lparr>maxlen = 2, fps_history = [1, 2], prev_time = 3/2, frame_count = 0, total_size = 1000\<rparr> 2 1000
       = Inr ([Fps 2, Pixmap 1000],
              \<lparr>maxlen = 2, fps_history = [2, 2], prev_time = 2, frame_count = 1, total_size = 2000\<rparr>)
   \<and> fps_history \<lparr>maxlen = 2, fps_history = [2, 2], prev_time = 2, frame_count = 1, total_size = 2000\<rparr>
       = tl [1, 2] @ [1 / (2 - 3/2)]"
  using average_fps_is_mean_of_rates[of
      "\<lparr>maxlen = 2, fps_history = [], prev_time = 0, frame_count = 0, total_size = 0\<rparr>"
      "[(1, 1000), (3/2, 1000)]"
      "\<lparr>maxlen = 2, fps_history = [1, 2], prev_time = 3/2, frame_count = 0, total_size = 1000\<rparr>"
      2 1000 "[Fps 2, Pixmap 1000]"
      "\<lparr>maxlen = 2, fps_history = [2, 2], prev_time = 2, frame_count = 1, total_size = 2000\<rparr>"]
  by (simp add: frame_step_def deque_append_def bitrate_event_def Let_def)

subsection \<open>Auxiliary facts about sessions\<close>

lemma bitrate_event_cases:
  "bitrate_event b = Bitrate (real b * 8 / 1000) ''kbps'' \<and> real b * 8 / 1000 \<le> 2000
   \<or> bitrate_event b = Bitrate (real b * 8 / 1000 / 1000) ''Mbps'' \<and> 2000 < real b * 8 / 1000"
  by (simp add: bitrate_event_def Let_def)

lemma resolutions_append: "resolutions (xs @ ys) = resolutions xs @ resolutions ys"
  by (induction xs rule: resolutions.induct) simp_all

lemma frame_step_resolutions:
  assumes "frame_step w t sz = Inr (evs, w')"
  shows "resolutions evs = []"
  using frame_step_Inr(6)[OF assms] by auto

lemma read_loop_resolutions: "resolutions (fst (read_loop w fs)) = []"
proof (induction fs arbitrary: w)
  case Nil
  show ?case by simp
next
  case (Cons f fs)
  obtain t sz where f: "f = (t, sz)" by (cases f)
  show ?case
  proof (cases "frame_step w t sz")
    case (Inl e)
    with f show ?thesis by simp
  next
    case (Inr p)
    obtain evs w' where p: "p = (evs, w')" by (cases p)
    from Inr p have "resolutions evs = []" by (simp add: frame_step_resolutions)
    moreover have "resolutions (fst (read_loop w' fs)) = []" by (rule Cons.IH)
    ultimately show ?thesis using Inr p f
      by (cases "read_loop w' fs") (simp add: resolutions_append)
  qed
qed

lemma read_loop_maxlen: "read_loop w fs = (evs, Inr w') \<Longrightarrow> maxlen w' = maxlen w"
proof (induction fs arbitrary: w evs)
  case Nil
  then show ?case by simp
next
  case (Cons f fs)
  obtain t sz where f: "f = (t, sz)" by (cases f)
  from Cons.prems f obtain e1 w1 e2 where
    s: "frame_step w t sz = Inr (e1, w1)" and l: "read_loop w1 fs = (e2, Inr w')"
    by (auto split: sum.splits prod.splits)
  from Cons.IH[OF l] frame_step_Inr(4)[OF s] show ?case by simp
qed

lemma session_events:
  "fst (session w c) = Status True # Resolution (cap_width c) (cap_height c)
      # fst (read_loop (open_session w (opened_at c)) (frames c))
      @ (case snd (read_loop (open_session w (opened_at c)) (frames c)) of
           Inl e \<Rightarrow> [] | Inr w' \<Rightarrow> [Status False])"
  by (simp add: session_def split: prod.splits sum.splits)

lemma session_maxlen:
  assumes "session w c = (evs, Inr w')"
  shows "maxlen w' = maxlen w"
proof -
  obtain e r where l: "read_loop (open_session w (opened_at c)) (frames c) = (e, r)"
    by (cases "read_loop (open_session w (opened_at c)) (frames c)")
  with assms have "r = Inr w'"
    by (cases r) (simp_all add: session_def)
  with l have "maxlen w' = maxlen (open_session w (opened_at c))"
    by (simp add: read_loop_maxlen)
  then show ?thesis by (simp add: open_session_def)
qed

lemma session_first_frame:
  assumes "frames c = (t, sz) # fs" and "t \<noteq> opened_at c" and "0 < maxlen w"
  shows "\<exists>evs. fst (session w c) = Status True # Resolution (cap_width c) (cap_height c)
     # Fps (sum_list (deque_append (maxlen w) (fps_history w) (1 / (t - opened_at c)))
            / real (length (deque_append (maxlen w) (fps_history w) (1 / (t - opened_at c)))))
     # evs"
proof -
  let ?w = "open_session w (opened_at c)"
  have "t \<noteq> prev_time ?w" "0 < maxlen ?w"
    using assms(2,3) by (simp_all add: open_session_def)
  from frame_step_ok[OF this, of sz] obtain evs1 w1 where
    "frame_step ?w t sz = Inr (Fps (sum_list (deque_append (maxlen w) (fps_history w) (1 / (t - opened_at c)))
            / real (length (deque_append (maxlen w) (fps_history w) (1 / (t - opened_at c))))) # evs1, w1)"
    by (auto simp add: open_session_def)
  then show ?thesis
    using assms(1) by (simp add: session_events split: prod.splits)
qed

lemma run_Opened_prefix: "\<exists>evs r. run w (Opened c # as) = (fst (session w c) @ evs, r)"
  by (cases "session w c") (auto split: sum.splits prod.splits)

subsection \<open>The bitrate\<close>

text \<open>
  Claim C2, as the specification states it: whenever the accumulated frame count
  reaches the current average FPS (rounded), the bitrate emitted equals the
  accumulated bytes times 8 divided by the elapsed duration of the window in
  milliseconds. The code measures no elapsed time: it divides the accumulated bits
  by the constant 1000, and it compares the frame count with the average as it is,
  not rounded. A session opened at time 0 whose first frame, of 1000 bytes, arrives
  at time 2 emits 8 kbps after a window of 2000 ms, where the formula gives 4; and a
  first frame at time 3/4 gives the average 4/3, which rounds to 1, and the frame
  count 1 emits no bitrate.
\<close>

theorem bitrate_counterexample:
  "frame_step \<lparr>maxlen = 120, fps_history = [], prev_time = 0, frame_count = 0, total_size = 0\<rparr> 2 1000
     = Inr ([Fps (1/2), Bitrate 8 ''kbps'', Pixmap 1000],
            \<lparr>maxlen = 120, fps_history = [1/2], prev_time = 2, frame_count = 0, total_size = 0\<rparr>)
   \<and> spec_bitrate_kbps 1000 ((2 - 0) * 1000) = 4
   \<and> frame_step \<lparr>maxlen = 120, fps_history = [], prev_time = 0, frame_count = 0, total_size = 0\<rparr> (3/4) 1000
     = Inr ([Fps (4/3), Pixmap 1000],
            \<lparr>maxlen = 120, fps_history = [4/3], prev_time = 3/4, frame_count = 1, total_size = 1000\<rparr>)
   \<and> real_of_int (round (4/3 :: real)) \<le> real (0 + 1)"
  by (simp add: frame_step_def deque_append_def bitrate_event_def Let_def spec_bitrate_kbps_def
        round_def)

text \<open>
  Claim C2, amended: for every frame that is processed, a bitrate is emitted exactly
  when the frame count, the new frame included, is at least the average FPS just
  emitted (compared without rounding); its value in kbps is the accumulated bytes,
  the new frame included, times 8 divided by the constant 1000, emitted as it is
  with the unit kbps or divided by 1000 with the unit Mbps; the accumulator is then
  reset, and otherwise it keeps counting.
\<close>

theorem bitrate_is_bits_over_1000:
  assumes "frame_step w t sz = Inr (evs, w')" and "Fps avg \<in> set evs"
  shows "if avg \<le> real (frame_count w + 1)
         then (\<exists>v u. evs = [Fps avg, Bitrate v u, Pixmap sz]
                 \<and> (u = ''kbps'' \<and> v = real (total_size w + sz) * 8 / 1000
                    \<or> u = ''Mbps'' \<and> v = real (total_size w + sz) * 8 / 1000 / 1000))
              \<and> frame_count w' = 0 \<and> total_size w' = 0
         else evs = [Fps avg, Pixmap sz]
              \<and> frame_count w' = frame_count w + 1 \<and> total_size w' = total_size w + sz"
proof -
  let ?h = "deque_append (maxlen w) (fps_history w) (1 / (t - prev_time w))"
  let ?a = "sum_list ?h / real (length ?h)"
  have nb: "Fps avg \<noteq> bitrate_event b" for b
    using bitrate_event_cases[of b] by auto
  from frame_step_Inr(6)[OF assms(1)] show ?thesis
  proof (elim disjE conjE)
    assume e: "evs = [Fps ?a, bitrate_event (total_size w + sz), Pixmap sz]"
      and z: "frame_count w' = 0" "total_size w' = 0" and le: "?a \<le> real (frame_count w + 1)"
    from e assms(2) nb have a: "avg = ?a" by auto
    from bitrate_event_cases[of "total_size w + sz"]
    have "\<exists>v u. bitrate_event (total_size w + sz) = Bitrate v u
            \<and> (u = ''kbps'' \<and> v = real (total_size w + sz) * 8 / 1000
               \<or> u = ''Mbps'' \<and> v = real (total_size w + sz) * 8 / 1000 / 1000)"
      by blast
    then obtain v u where "bitrate_event (total_size w + sz) = Bitrate v u"
      and "u = ''kbps'' \<and> v = real (total_size w + sz) * 8 / 1000
               \<or> u = ''Mbps'' \<and> v = real (total_size w + sz) * 8 / 1000 / 1000"
      by blast
    with e a have "\<exists>v u. evs = [Fps avg, Bitrate v u, Pixmap sz]
                 \<and> (u = ''kbps'' \<and> v = real (total_size w + sz) * 8 / 1000
                    \<or> u = ''Mbps'' \<and> v = real (total_size w + sz) * 8 / 1000 / 1000)"
      by blast
    with a z le show ?thesis by simp
  next
    assume e: "evs = [Fps ?a, Pixmap sz]"
      and z: "frame_count w' = frame_count w + 1" "total_size w' = total_size w + sz"
      and gt: "real (frame_count w + 1) < ?a"
    from e assms(2) have "avg = ?a" by auto
    with e z gt show ?thesis by auto
  qed
qed

theorem bitrate_is_bits_over_1000_witness:
  "frame_step \<lparr>maxlen = 120, fps_history = [], prev_time = 0, frame_count = 0, total_size = 0\<rparr> 2 1000
     = Inr ([Fps (1/2), Bitrate 8 ''kbps'', Pixmap 1000],
            \<lparr>maxlen = 120, fps_history = [1/2], prev_time = 2, frame_count = 0, total_size = 0\<rparr>)
   \<and> Fps (1/2) \<in> set [Fps (1/2), Bitrate 8 ''kbps'', Pixmap 1000]
   \<and> (1/2 :: real) \<le> real (0 + 1)
   \<and> (8 :: real) = real (0 + 1000) * 8 / 1000"
  using bitrate_is_bits_over_1000[of
      "\<lparr>maxlen = 120, fps_history = [], prev_time = 0, frame_count = 0, total_size = 0\<rparr>" 2 1000
      "[Fps (1/2), Bitrate 8 ''kbps'', Pixmap 1000]"
      "\<lparr>maxlen = 120, fps_history = [1/2], prev_time = 2, frame_count = 0, total_size = 0\<rparr>" "1/2"]
  by (simp add: frame_step_def deque_append_def bitrate_event_def Let_def)

text \<open>
  Claim C3, as the specification states it: the unit is Mbps if and only if the
  kbps value is at least 2000. The code tests \<^verbatim>\<open>bitrate > 2000\<close>: an accumulator
  of 250000 bytes gives exactly 2000 kbps and is emitted as 2000 kbps.
\<close>

theorem bitrate_unit_counterexample:
  "frame_step \<lparr>maxlen = 120, fps_history = [], prev_time = 0, frame_count = 0, total_size = 0\<rparr> 1 250000
     = Inr ([Fps 1, Bitrate 2000 ''kbps'', Pixmap 250000],
            \<lparr>maxlen = 120, fps_history = [1], prev_time = 1, frame_count = 0, total_size = 0\<rparr>)
   \<and> real (0 + 250000) * 8 / 1000 \<ge> 2000"
  by (simp add: frame_step_def deque_append_def bitrate_event_def Let_def)

text \<open>
  Claim C3, amended: for every frame step that emits a bitrate, the unit is Mbps if
  and only if the kbps value is strictly greater than 2000, and the value emitted
  is then the kbps value divided by 1000; otherwise the unit is kbps and the kbps
  value is emitted unchanged.
\<close>

theorem bitrate_unit_strict_threshold:
  assumes "frame_step w t sz = Inr (evs, w')" and "Bitrate v u \<in> set evs"
  shows "(u = ''Mbps'' \<longleftrightarrow> 2000 < real (total_size w + sz) * 8 / 1000)
       \<and> (if 2000 < real (total_size w + sz) * 8 / 1000
          then v = real (total_size w + sz) * 8 / 1000 / 1000
          else u = ''kbps'' \<and> v = real (total_size w + sz) * 8 / 1000)"
proof -
  from frame_step_Inr(6)[OF assms(1)] assms(2)
  have "Bitrate v u = bitrate_event (total_size w + sz)" by auto
  with bitrate_event_cases[of "total_size w + sz"] show ?thesis by auto
qed

theorem bitrate_unit_strict_threshold_witness:
  "frame_step \<lparr>maxlen = 120, fps_history = [], prev_time = 0, frame_count = 0, total_size = 0\<rparr> 1 1000000
     = Inr ([Fps 1, Bitrate 8 ''Mbps'', Pixmap 1000000],
            \<lparr>maxlen = 120, fps_history = [1], prev_time = 1, frame_count = 0, total_size = 0\<rparr>)
   \<and> Bitrate 8 ''Mbps'' \<in> set [Fps 1, Bitrate 8 ''Mbps'', Pixmap 1000000]
   \<and> 2000 < real (0 + 1000000) * 8 / 1000
   \<and> (8 :: real) = real (0 + 1000000) * 8 / 1000 / 1000"
  using bitrate_unit_strict_threshold[of
      "\<lparr>maxlen = 120, fps_history = [], prev_time = 0, frame_count = 0, total_size = 0\<rparr>" 1 1000000
      "[Fps 1, Bitrate 8 ''Mbps'', Pixmap 1000000]"
      "\<lparr>maxlen = 120, fps_history = [1], prev_time = 1, frame_count = 0, total_size = 0\<rparr>" 8 "''Mbps''"]
  by (simp add: frame_step_def deque_append_def bitrate_event_def Let_def)

subsection \<open>Equal clock readings\<close>

text \<open>
  Claim C4: for two consecutive frames with equal timestamps the sample is skipped
  and the FPS computation does not divide by zero. The code divides without a
  guard: a frame read at the clock reading of the previous one raises
  \<^verbatim>\<open>ZeroDivisionError\<close>, which ends \<^verbatim>\<open>run\<close>. In the session below the second frame
  carries the reading of the first: the third frame is never processed and the
  closing status is not emitted.
\<close>

theorem equal_timestamps_raise:
  "frame_step w (prev_time w) sz = Inl ZeroDivisionError
   \<and> session \<lparr>maxlen = 120, fps_history = [], prev_time = 0, frame_count = 0, total_size = 0\<rparr>
        \<lparr>cap_width = 640, cap_height = 480, opened_at = 0,
         frames = [(1, 1000), (1, 1000), (2, 1000)], ending = ReadFailed\<rparr>
     = ([Status True, Resolution 640 480, Fps 1, Bitrate 8 ''kbps'', Pixmap 1000],
        Inl ZeroDivisionError)"
  by (simp add: frame_step_def session_def open_session_def deque_append_def bitrate_event_def Let_def)

subsection \<open>The first frame of a session\<close>

text \<open>
  Claim C7, as the specification states it: the first frame after a successful open
  emits no FPS value; none is emitted until a second frame arrives. The code sets
  \<^verbatim>\<open>prev_time\<close> when the session opens and emits an FPS value for every frame, the
  first included: a session of a single frame emits one.
\<close>

theorem first_frame_counterexample:
  "fps_values (fst (session
      \<lparr>maxlen = 120, fps_history = [], prev_time = 0, frame_count = 0, total_size = 0\<rparr>
      \<lparr>cap_width = 640, cap_height = 480, opened_at = 0, frames = [(1, 1000)],
       ending = ReadFailed\<rparr>)) = [1]"
  by (simp add: frame_step_def session_def open_session_def deque_append_def bitrate_event_def Let_def)

text \<open>
  Claim C7, amended: the timing state is seeded when the session opens, and the
  first frame read already emits an FPS value, right after the resolution: the mean
  of the window once the rate 1 / (arrival of the first frame - time of the open)
  has been appended to it (provided the two clock readings differ and the window
  has positive capacity).
\<close>

theorem first_frame_emits_fps:
  assumes "frames c = (t, sz) # fs" and "t \<noteq> opened_at c" and "0 < maxlen w"
  shows "prev_time (open_session w (opened_at c)) = opened_at c
     \<and> (\<exists>evs. fst (session w c) = Status True # Resolution (cap_width c) (cap_height c)
     # Fps (sum_list (deque_append (maxlen w) (fps_history w) (1 / (t - opened_at c)))
            / real (length (deque_append (maxlen w) (fps_history w) (1 / (t - opened_at c)))))
     # evs)"
  using session_first_frame[OF assms] by (simp add: open_session_def)

theorem first_frame_emits_fps_witness:
  "(\<exists>evs. fst (session
      \<lparr>maxlen = 120, fps_history = [], prev_time = 0, frame_count = 0, total_size = 0\<rparr>
      \<lparr>cap_width = 640, cap_height = 480, opened_at = 5, frames = [(11/2, 1000)],
       ending = ReadFailed\<rparr>) = Status True # Resolution 640 480 # Fps 2 # evs)"
  using first_frame_emits_fps[of
      "\<lparr>cap_width = 640, cap_height = 480, opened_at = 5, frames = [(11/2, 1000)],
       ending = ReadFailed\<rparr>" "11/2" 1000 "[]"
      "\<lparr>maxlen = 120, fps_history = [], prev_time = 0, frame_count = 0, total_size = 0\<rparr>"]
  by (simp add: deque_append_def)

subsection \<open>The resolution\<close>

text \<open>
  Claim C9: in every session that opened, the resolution is emitted exactly once,
  as the second signal (after the status and before anything a frame produces), and
  never by the inner loop, however many frames are read and however the session
  ends.
\<close>

theorem resolution_once_per_session:
  "resolutions (fst (session w c)) = [(cap_width c, cap_height c)]
   \<and> (\<exists>evs. fst (session w c) = Status True # Resolution (cap_width c) (cap_height c) # evs
          \<and> resolutions evs = [])"
proof -
  have "resolutions (case snd (read_loop (open_session w (opened_at c)) (frames c)) of
           Inl e \<Rightarrow> [] | Inr w' \<Rightarrow> [Status False]) = []"
    by (simp split: sum.splits)
  then show ?thesis
    by (simp add: session_events resolutions_append read_loop_resolutions)
qed

subsection \<open>The window across a whole run\<close>

text \<open>
  The deque is the last \<open>maxlen\<close> elements of everything appended to it; a frame
  step, the inner loop, a session and a run each leave the window that holds the
  last \<open>maxlen\<close> of the old window followed by the rates they admitted.
\<close>

lemma last_n_length: "length (last_n n xs) \<le> n"
  by (simp add: last_n_def)

lemma last_n_short: "length xs \<le> n \<Longrightarrow> last_n n xs = xs"
  by (simp add: last_n_def)

lemma deque_append_last_n:
  "length xs \<le> n \<Longrightarrow> deque_append n xs x = last_n n (xs @ [x])"
  by (cases xs) (auto simp add: deque_append_def last_n_def Let_def Suc_diff_le)

lemma last_n_absorb: "last_n n (last_n n xs @ ys) = last_n n (xs @ ys)"
proof (cases "length xs \<le> n")
  case True
  then show ?thesis by (simp add: last_n_def)
next
  case False
  then show ?thesis
    by (simp add: last_n_def add.commute)
qed

lemma frame_step_window:
  assumes "frame_step w t sz = Inr (evs, w')" and "length (fps_history w) \<le> maxlen w"
  shows "fps_history w' = last_n (maxlen w) (fps_history w @ [1 / (t - prev_time w)])"
  using frame_step_Inr(3)[OF assms(1)] assms(2) by (simp add: deque_append_last_n)

lemma read_loop_window:
  assumes "read_loop w fs = (evs, Inr w')" and "length (fps_history w) \<le> maxlen w"
  shows "fps_history w'
           = last_n (maxlen w) (fps_history w @ map (\<lambda>d. 1 / d) (intervals (prev_time w) fs))"
  using assms
proof (induction fs arbitrary: w evs)
  case Nil
  then show ?case by (simp add: last_n_short)
next
  case (Cons f fs)
  obtain t sz where f: "f = (t, sz)" by (cases f)
  from Cons.prems(1) f obtain e1 w1 e2 where
    s: "frame_step w t sz = Inr (e1, w1)" and l: "read_loop w1 fs = (e2, Inr w')"
    by (auto split: sum.splits prod.splits)
  have h1: "fps_history w1 = last_n (maxlen w) (fps_history w @ [1 / (t - prev_time w)])"
    using s Cons.prems(2) by (rule frame_step_window)
  have m1: "maxlen w1 = maxlen w" and p1: "prev_time w1 = t"
    using frame_step_Inr(4,5)[OF s] by simp_all
  have "length (fps_history w1) \<le> maxlen w1"
    using h1 m1 by (simp add: last_n_length)
  from Cons.IH[OF l this] h1 m1 p1
  have "fps_history w' = last_n (maxlen w)
          (last_n (maxlen w) (fps_history w @ [1 / (t - prev_time w)])
             @ map (\<lambda>d. 1 / d) (intervals t fs))"
    by simp
  then show ?case using f by (simp add: last_n_absorb)
qed

lemma session_window:
  assumes "session w c = (evs, Inr w')" and "length (fps_history w) \<le> maxlen w"
  shows "fps_history w' = last_n (maxlen w) (fps_history w @ session_rates c)"
proof -
  obtain e r where l: "read_loop (open_session w (opened_at c)) (frames c) = (e, r)"
    by (cases "read_loop (open_session w (opened_at c)) (frames c)")
  with assms(1) have "r = Inr w'"
    by (cases r) (simp_all add: session_def)
  with l have "read_loop (open_session w (opened_at c)) (frames c) = (e, Inr w')" by simp
  from read_loop_window[OF this] assms(2) show ?thesis
    by (simp add: open_session_def session_rates_def)
qed

lemma run_window:
  assumes "run w as = (evs, Inr w')" and "length (fps_history w) \<le> maxlen w"
  shows "fps_history w' = last_n (maxlen w) (fps_history w @ rates_admitted as)
       \<and> maxlen w' = maxlen w"
  using assms
proof (induction w as arbitrary: evs rule: run.induct)
  case (1 w)
  then show ?case by (simp add: last_n_short)
next
  case (2 w as)
  obtain e r where r: "run w as = (e, r)" by (cases "run w as")
  with "2.prems"(1) have "r = Inr w'" by simp
  with r "2.IH"[of e] "2.prems"(2) show ?case by simp
next
  case (3 w c as)
  obtain e1 r1 where s: "session w c = (e1, r1)" by (cases "session w c")
  from "3.prems"(1) s obtain w1 where r1: "r1 = Inr w1"
    by (cases r1) simp_all
  have h1: "fps_history w1 = last_n (maxlen w) (fps_history w @ session_rates c)"
    using s r1 "3.prems"(2) by (simp add: session_window)
  have m1: "maxlen w1 = maxlen w"
    using s r1 by (simp add: session_maxlen)
  show ?case
  proof (cases "ending c = StopRequested")
    case True
    with "3.prems"(1) s r1 have "w' = w1" by simp
    with h1 m1 True show ?thesis by simp
  next
    case False
    obtain e2 r2 where r: "run w1 as = (e2, r2)" by (cases "run w1 as")
    with "3.prems"(1) s r1 False have r2: "r2 = Inr w'" by simp
    have "length (fps_history w1) \<le> maxlen w1"
      using h1 m1 by (simp add: last_n_length)
    from "3.IH"[OF s[unfolded r1, symmetric] refl False r[unfolded r2] this]
    have "fps_history w' = last_n (maxlen w1) (fps_history w1 @ rates_admitted as)
       \<and> maxlen w' = maxlen w1"
      by simp
    with h1 m1 False show ?thesis by (simp add: last_n_absorb)
  qed
qed

text \<open>A run whose sessions all ended on a failed read continues with the next attempts.\<close>

lemma run_append:
  assumes "run w pre = (evs0, Inr w0)" and "reconnects pre"
  shows "run w (pre @ post) = (evs0 @ fst (run w0 post), snd (run w0 post))"
  using assms
proof (induction w pre arbitrary: evs0 rule: run.induct)
  case (1 w)
  then show ?case by simp
next
  case (2 w as)
  obtain e r where r: "run w as = (e, r)" by (cases "run w as")
  with "2.prems" have "r = Inr w0" "evs0 = Status False # e" "reconnects as" by auto
  with r "2.IH"[of e] show ?case by simp
next
  case (3 w c as)
  obtain e1 r1 where s: "session w c = (e1, r1)" by (cases "session w c")
  from "3.prems"(1) s obtain w1 where r1: "r1 = Inr w1"
    by (cases r1) simp_all
  from "3.prems"(2) have ne: "ending c \<noteq> StopRequested" and rc: "reconnects as" by simp_all
  obtain e2 r2 where r: "run w1 as = (e2, r2)" by (cases "run w1 as")
  with "3.prems"(1) s r1 ne have r2: "r2 = Inr w0" and ev: "evs0 = e1 @ e2" by simp_all
  from "3.IH"[OF s[unfolded r1, symmetric] refl ne r[unfolded r2] rc]
  have "run w1 (as @ post) = (e2 @ fst (run w0 post), snd (run w0 post))" by simp
  with s r1 ne ev show ?case by simp
qed

lemma session_ignores_accumulator:
  "session (w\<lparr>frame_count := a, total_size := b\<rparr>) c = session w c"
  by (simp add: session_def open_session_def)

text \<open>
  Claim C10: the window is created once and never cleared at a session boundary.
  For every run that returns, over any sequence of failed opens and sessions, the
  window at the end is the last \<open>maxlen\<close> elements of the initial window followed by
  the rates of all the frames of all the sessions of the run. After any such
  sequence of sessions and failed opens, the first FPS value of a new session is the
  mean of the last \<open>maxlen\<close> elements of all the earlier rates followed by the rate of
  the new frame. Opening a session resets the frame count and the accumulated bytes
  to zero and leaves the window as it is, and what a session emits and leaves does
  not depend on the frame count and the accumulated bytes that it finds.
\<close>

theorem fps_window_never_cleared:
  "(run w as = (evs, Inr w') \<and> length (fps_history w) \<le> maxlen w
      \<longrightarrow> fps_history w' = last_n (maxlen w) (fps_history w @ rates_admitted as))
   \<and> (run w pre = (evs0, Inr w0) \<and> reconnects pre \<and> length (fps_history w) \<le> maxlen w
        \<and> 0 < maxlen w \<and> frames c = (t, sz) # fs \<and> t \<noteq> opened_at c
      \<longrightarrow> (\<exists>evs2 r. run w (pre @ Opened c # rest)
            = (evs0 @ Status True # Resolution (cap_width c) (cap_height c)
                 # Fps (sum_list (last_n (maxlen w)
                                   (fps_history w @ rates_admitted pre @ [1 / (t - opened_at c)]))
                        / real (length (last_n (maxlen w)
                                   (fps_history w @ rates_admitted pre @ [1 / (t - opened_at c)]))))
                 # evs2, r)))
   \<and> fps_history (open_session w t0) = fps_history w
   \<and> frame_count (open_session w t0) = 0 \<and> total_size (open_session w t0) = 0
   \<and> session (w\<lparr>frame_count := a, total_size := b\<rparr>) c = session w c"
proof (intro conjI impI)
  assume "run w as = (evs, Inr w') \<and> length (fps_history w) \<le> maxlen w"
  then show "fps_history w' = last_n (maxlen w) (fps_history w @ rates_admitted as)"
    using run_window[of w as evs w'] by simp
next
  assume a: "run w pre = (evs0, Inr w0) \<and> reconnects pre \<and> length (fps_history w) \<le> maxlen w
        \<and> 0 < maxlen w \<and> frames c = (t, sz) # fs \<and> t \<noteq> opened_at c"
  then have r0: "run w pre = (evs0, Inr w0)" and len: "length (fps_history w) \<le> maxlen w"
    by simp_all
  from run_window[OF r0 len]
  have h0: "fps_history w0 = last_n (maxlen w) (fps_history w @ rates_admitted pre)"
    and m0: "maxlen w0 = maxlen w" by simp_all
  have d: "deque_append (maxlen w0) (fps_history w0) (1 / (t - opened_at c))
         = last_n (maxlen w) (fps_history w @ rates_admitted pre @ [1 / (t - opened_at c)])"
    using h0 m0 last_n_absorb[of "maxlen w" "fps_history w @ rates_admitted pre" "[1 / (t - opened_at c)]"]
    by (simp add: deque_append_last_n last_n_length)
  from a m0 have "frames c = (t, sz) # fs" "t \<noteq> opened_at c" "0 < maxlen w0" by simp_all
  from session_first_frame[OF this] d obtain evs1 where
    s: "fst (session w0 c) = Status True # Resolution (cap_width c) (cap_height c)
       # Fps (sum_list (last_n (maxlen w)
                         (fps_history w @ rates_admitted pre @ [1 / (t - opened_at c)]))
              / real (length (last_n (maxlen w)
                         (fps_history w @ rates_admitted pre @ [1 / (t - opened_at c)]))))
       # evs1"
    by auto
  from run_Opened_prefix[of w0 c rest] obtain evs' r where
    r2: "run w0 (Opened c # rest) = (fst (session w0 c) @ evs', r)" by blast
  from a have "reconnects pre" by simp
  from run_append[OF r0 this, of "Opened c # rest"] r2
  have "run w (pre @ Opened c # rest) = (evs0 @ fst (session w0 c) @ evs', r)" by simp
  with s show "\<exists>evs2 r. run w (pre @ Opened c # rest)
            = (evs0 @ Status True # Resolution (cap_width c) (cap_height c)
                 # Fps (sum_list (last_n (maxlen w)
                                   (fps_history w @ rates_admitted pre @ [1 / (t - opened_at c)]))
                        / real (length (last_n (maxlen w)
                                   (fps_history w @ rates_admitted pre @ [1 / (t - opened_at c)]))))
                 # evs2, r)"
    by simp
qed (simp_all add: open_session_def session_ignores_accumulator)

theorem fps_window_never_cleared_witness:
  "run \<lparr>maxlen = 120, fps_history = [], prev_time = 0, frame_count = 0, total_size = 0\<rparr>
      [Opened \<lparr>cap_width = 640, cap_height = 480, opened_at = 0, frames = [(1, 1000), (2, 1000)],
               ending = ReadFailed\<rparr>,
       NotOpened]
     = ([Status True, Resolution 640 480, Fps 1, Bitrate 8 ''kbps'', Pixmap 1000,
         Fps 1, Bitrate 8 ''kbps'', Pixmap 1000, Status False, Status False],
        Inr \<lparr>maxlen = 120, fps_history = [1, 1], prev_time = 2, frame_count = 0, total_size = 0\<rparr>)
   \<and> fps_history \<lparr>maxlen = 120, fps_history = [1, 1], prev_time = 2, frame_count = 0, total_size = 0\<rparr>
       = [1, 1]
   \<and> (\<exists>evs2 r. run \<lparr>maxlen = 120, fps_history = [], prev_time = 0, frame_count = 0, total_size = 0\<rparr>
        [Opened \<lparr>cap_width = 640, cap_height = 480, opened_at = 0, frames = [(1, 1000), (2, 1000)],
                 ending = ReadFailed\<rparr>,
         NotOpened,
         Opened \<lparr>cap_width = 640, cap_height = 480, opened_at = 10, frames = [(21/2, 1000)],
                 ending = StopRequested\<rparr>]
      = ([Status True, Resolution 640 480, Fps 1, Bitrate 8 ''kbps'', Pixmap 1000,
          Fps 1, Bitrate 8 ''kbps'', Pixmap 1000, Status False, Status False]
         @ Status True # Resolution 640 480 # Fps (4 / 3) # evs2, r))"
  using fps_window_never_cleared[of
      "\<lparr>maxlen = 120, fps_history = [], prev_time = 0, frame_count = 0, total_size = 0\<rparr>"
      "[Opened \<lparr>cap_width = 640, cap_height = 480, opened_at = 0, frames = [(1, 1000), (2, 1000)],
               ending = ReadFailed\<rparr>,
       NotOpened]"
      "[Status True, Resolution 640 480, Fps 1, Bitrate 8 ''kbps'', Pixmap 1000,
         Fps 1, Bitrate 8 ''kbps'', Pixmap 1000, Status False, Status False]"
      "\<lparr>maxlen = 120, fps_history = [1, 1], prev_time = 2, frame_count = 0, total_size = 0\<rparr>"
      "[Opened \<lparr>cap_width = 640, cap_height = 480, opened_at = 0, frames = [(1, 1000), (2, 1000)],
               ending = ReadFailed\<rparr>,
       NotOpened]"
      "[Status True, Resolution 640 480, Fps 1, Bitrate 8 ''kbps'', Pixmap 1000,
         Fps 1, Bitrate 8 ''kbps'', Pixmap 1000, Status False, Status False]"
      "\<lparr>maxlen = 120, fps_history = [1, 1], prev_time = 2, frame_count = 0, total_size = 0\<rparr>"
      "\<lparr>cap_width = 640, cap_height = 480, opened_at = 10, frames = [(21/2, 1000)],
                 ending = StopRequested\<rparr>" "21/2" 1000 "[]" "[]"]
  by (simp add: frame_step_def session_def open_session_def deque_append_def bitrate_event_def
        Let_def last_n_def session_rates_def)

subsection \<open>The handshake\<close>

lemma os_urandom_length: "length (os_urandom entropy n) = n"
  by (simp add: os_urandom_def)

lemma message_loop_pending:
  "\<forall>d\<in>set ds. d \<noteq> [] \<Longrightarrow> message_loop (map Done ds) = ReadChunkHeader"
  by (induction ds) simp_all

lemma message_loop_break:
  "\<forall>d\<in>set ds. d \<noteq> [] \<Longrightarrow> message_loop (map Done ds @ Done [] # later) = Returned"
  by (induction ds) simp_all

lemma message_loop_raise:
  "\<forall>d\<in>set ds. d \<noteq> [] \<Longrightarrow> message_loop (map Done ds @ Raise e # later) = Raised e"
  by (induction ds) simp_all



lemma handle_client_hello:
  "handle_client entropy \<lparr>peername = Some addr, reads = [Done hello], drain1 = None, drain2 = d2\<rparr>
     = \<lparr>point = ReadC2, written = [3 # os_urandom entropy 1535]\<rparr>"
  by (simp add: handle_client_def)

lemma handle_client_ack:
  "handle_client entropy
      \<lparr>peername = Some addr, reads = Done hello # Done ack # rest, drain1 = None, drain2 = None\<rparr>
     = \<lparr>point = message_loop rest, written = [3 # os_urandom entropy 1535, hello]\<rparr>"
  by (simp add: handle_client_def)




text \<open>
  Claim C6, as the specification states it: a hello or ack read that returns fewer
  than 1536 bytes, or nothing, aborts the connection and no further handshake write
  is performed. The handler never looks at the length of what it read: after a
  hello of 500 bytes it writes its 1536-byte reply, and after an empty read in
  place of the ack it writes the 500 bytes back, enters the message loop and
  returns at the next empty read.
\<close>

theorem short_hello_counterexample:
  "length (replicate 500 (1 :: byte)) < 1536
   \<and> handle_client of_nat
        \<lparr>peername = Some (''192.168.1.20'', 50000),
         reads = [Done (replicate 500 1), Done [], Done []],
         drain1 = None, drain2 = None\<rparr>
     = \<lparr>point = Returned, written = [3 # os_urandom of_nat 1535, replicate 500 1]\<rparr>
   \<and> length (3 # os_urandom of_nat 1535) = 1536"
  by (simp add: handle_client_ack os_urandom_length)

text \<open>
  Claim C6, amended: the handler has no abort path for a short or empty read.
  Whatever bytes the read of the hello returns, the server writes its 1536-byte
  reply and waits for the ack; whatever bytes the read of the ack returns, it
  writes back exactly what the read of the hello returned and enters the message
  loop, which writes nothing, goes on after every non-empty read and returns at the
  first empty read. The handler ends earlier only by an exception: of a read or of
  a drain, after the writes made so far, or of the missing peer name, before any
  read. It never closes the connection.
\<close>

theorem handshake_ignores_short_reads:
  "handle_client entropy
      \<lparr>peername = Some addr, reads = [Done hello], drain1 = None, drain2 = d2\<rparr>
     = \<lparr>point = ReadC2, written = [3 # os_urandom entropy 1535]\<rparr>
   \<and> length (3 # os_urandom entropy 1535) = 1536
   \<and> ((\<forall>d\<in>set ds. d \<noteq> []) \<longrightarrow>
        handle_client entropy
          \<lparr>peername = Some addr, reads = Done hello # Done ack # map Done ds,
           drain1 = None, drain2 = None\<rparr>
         = \<lparr>point = ReadChunkHeader, written = [3 # os_urandom entropy 1535, hello]\<rparr>
      \<and> handle_client entropy
          \<lparr>peername = Some addr, reads = Done hello # Done ack # map Done ds @ Done [] # later,
           drain1 = None, drain2 = None\<rparr>
         = \<lparr>point = Returned, written = [3 # os_urandom entropy 1535, hello]\<rparr>
      \<and> handle_client entropy
          \<lparr>peername = Some addr, reads = Done hello # Done ack # map Done ds @ Raise e # later,
           drain1 = None, drain2 = None\<rparr>
         = \<lparr>point = Raised e, written = [3 # os_urandom entropy 1535, hello]\<rparr>)
   \<and> handle_client entropy
        \<lparr>peername = Some addr, reads = Done hello # rest, drain1 = Some e, drain2 = d2\<rparr>
     = \<lparr>point = Raised e, written = [3 # os_urandom entropy 1535]\<rparr>
   \<and> handle_client entropy
        \<lparr>peername = Some addr, reads = Done hello # Done ack # rest, drain1 = None, drain2 = Some e\<rparr>
     = \<lparr>point = Raised e, written = [3 # os_urandom entropy 1535, hello]\<rparr>
   \<and> handle_client entropy
        \<lparr>peername = Some addr, reads = Done hello # Raise e # rest, drain1 = None, drain2 = d2\<rparr>
     = \<lparr>point = Raised e, written = [3 # os_urandom entropy 1535]\<rparr>
   \<and> handle_client entropy
        \<lparr>peername = Some addr, reads = Raise e # rest, drain1 = d1, drain2 = d2\<rparr>
     = \<lparr>point = Raised e, written = []\<rparr>
   \<and> handle_client entropy \<lparr>peername = None, reads = rest, drain1 = d1, drain2 = d2\<rparr>
     = \<lparr>point = Raised TypeError, written = []\<rparr>"
  by (simp add: handle_client_hello handle_client_ack os_urandom_length
        message_loop_pending message_loop_break message_loop_raise)
    (simp add: handle_client_def)

theorem handshake_ignores_short_reads_witness:
  "handle_client of_nat
        \<lparr>peername = Some (''192.168.1.20'', 50000),
         reads = Done (replicate 500 1) # Done [] # map Done [[7], [8]],
         drain1 = None, drain2 = None\<rparr>
     = \<lparr>point = ReadChunkHeader, written = [3 # os_urandom of_nat 1535, replicate 500 1]\<rparr>
   \<and> handle_client of_nat
        \<lparr>peername = Some (''192.168.1.20'', 50000),
         reads = Done (replicate 500 1) # Done [] # map Done [[7], [8]] @ Done [] # [Done [9]],
         drain1 = None, drain2 = None\<rparr>
     = \<lparr>point = Returned, written = [3 # os_urandom of_nat 1535, replicate 500 1]\<rparr>"
  using handshake_ignores_short_reads[of of_nat "(''192.168.1.20'', 50000)" "replicate 500 1"
      None "[[7], [8]]" "[]" "[Done [9]]"]
  by simp

end
